theory Spec2Isabelle
  imports Main
begin

section \<open>The model lister script\<close>

text \<open>
  The repository is one Python script, \<^verbatim>\<open>list_models.py\<close>:
  \<^verbatim>\<open>
  from anthropic import Anthropic
  import os

  client = Anthropic(api_key=os.getenv('ANTHROPIC_API_KEY'))
  for m in client.models.list().model_data:
      print(m['id'])
  \<close>
  The vendor SDK and the interpreter are external, so what the script calls in them is a
  parameter of the model: the constructor, the list call, the builtin
  \<^verbatim>\<open>str\<close> and the write to standard output, each of which may raise.
  Everything else is the script's own: the environment read, the attribute access, the
  iteration, the subscript, the order of the steps of \<^verbatim>\<open>print\<close>, and the
  absence of any \<^verbatim>\<open>try\<close>.
\<close>

subsection \<open>Python values\<close>

text \<open>
  The values the SDK can hand back: JSON-like data and plain objects with attributes.
  A \<open>PyDict\<close> has string keys; a \<open>PyObject\<close> is an instance carrying
  the listed attributes and defining neither iteration nor subscripting.
\<close>

datatype pyobj =
    PyNone
  | PyBool bool
  | PyInt int
  | PyStr string
  | PyList "pyobj list"
  | PyDict "(string \<times> pyobj) list"
  | PyObject "(string \<times> pyobj) list"

text \<open>
  An exception: either one raised inside the SDK, carrying the SDK's diagnostic text, or
  one the interpreter raises when the script evaluates an expression or prints.
\<close>

datatype error =
    SdkError string
  | AttributeError string
  | TypeError
  | KeyError string
  | ValueError
  | UnicodeEncodeError

text \<open>\<^verbatim>\<open>x.name\<close>: only an object that has the attribute answers.\<close>

fun getattr :: "pyobj \<Rightarrow> string \<Rightarrow> error + pyobj" where
  "getattr (PyObject attrs) name =
     (case map_of attrs name of None \<Rightarrow> Inl (AttributeError name) | Some v \<Rightarrow> Inr v)"
| "getattr _ name = Inl (AttributeError name)"

text \<open>
  \<^verbatim>\<open>for m in x\<close>: the elements of a list, the characters of a string (each a
  string of length one), the keys of a dict; anything else is not iterable.
\<close>

fun iter :: "pyobj \<Rightarrow> error + pyobj list" where
  "iter (PyList xs) = Inr xs"
| "iter (PyStr s) = Inr (map (\<lambda>c. PyStr [c]) s)"
| "iter (PyDict kvs) = Inr (map (\<lambda>k. PyStr k) (remdups (map fst kvs)))"
| "iter _ = Inl TypeError"

text \<open>
  \<^verbatim>\<open>x['key']\<close>: a dict answers with the value or KeyError; strings and lists
  take integer indices only, the rest is not subscriptable.
\<close>

fun subscript :: "pyobj \<Rightarrow> string \<Rightarrow> error + pyobj" where
  "subscript (PyDict kvs) key =
     (case map_of kvs key of None \<Rightarrow> Inl (KeyError key) | Some v \<Rightarrow> Inr v)"
| "subscript _ key = Inl TypeError"

subsection \<open>The platform: SDK and interpreter\<close>

text \<open>
  What the script calls and does not define:
  \<^item> \<open>Anthropic\<close>, the client constructor, given the \<^verbatim>\<open>api_key\<close> keyword;
  \<^item> \<open>models_list\<close>, \<^verbatim>\<open>client.models.list\<close>, given the client and the
    keyword arguments of the call;
  \<^item> \<open>py_str\<close>, the builtin \<^verbatim>\<open>str\<close> on values that are not strings;
    it may raise (ValueError on an integer with too many digits);
  \<^item> \<open>stdout_write\<close>, \<^verbatim>\<open>sys.stdout.write\<close> in a process started with
    the given environment: \<open>None\<close> when the text is accepted, the exception when
    it is not (UnicodeEncodeError when the encoding of the stream, which the interpreter
    takes from the environment, cannot encode the text);
  \<^item> \<open>excepthook\<close>, the text the interpreter writes for an uncaught exception in a
    process started with the given environment.
\<close>

type_synonym environ = "string \<rightharpoonup> string"

record 'c platform =
  Anthropic :: "string option \<Rightarrow> error + 'c"
  models_list :: "'c \<Rightarrow> (string \<times> pyobj) list \<Rightarrow> error + pyobj"
  py_str :: "pyobj \<Rightarrow> error + string"
  stdout_write :: "environ \<Rightarrow> string \<Rightarrow> error option"
  excepthook :: "environ \<Rightarrow> error \<Rightarrow> string"

text \<open>\<^verbatim>\<open>os.getenv(name)\<close>: the value, or None when the variable is absent.\<close>

definition getenv :: "environ \<Rightarrow> string \<Rightarrow> string option" where
  "getenv env name = env name"

subsection \<open>Observable actions\<close>

datatype stream = Stdout | Stderr

datatype event =
    GetEnv string
  | NewClient "string option"
  | ListModels "(string \<times> pyobj) list"
  | Write stream string

definition newline :: char where
  "newline = CHR 0x0A"

text \<open>\<^verbatim>\<open>str(v)\<close>: a string is its own text; for the rest the builtin decides.\<close>

fun str :: "'c platform \<Rightarrow> pyobj \<Rightarrow> error + string" where
  "str p (PyStr s) = Inr s"
| "str p v = py_str p v"

text \<open>
  \<^verbatim>\<open>print(v)\<close>: the text \<^verbatim>\<open>str(v)\<close> is computed, written to standard
  output, and then the newline is written, in two writes. Each of the three steps may
  raise; what was written before stays written. The result is the writes that took place
  and the exception, if any.
\<close>

definition print :: "'c platform \<Rightarrow> environ \<Rightarrow> pyobj \<Rightarrow> event list \<times> error option" where
  "print p env v =
     (case str p v of
        Inl e \<Rightarrow> ([], Some e)
      | Inr s \<Rightarrow>
          (case stdout_write p env s of
             Some e \<Rightarrow> ([], Some e)
           | None \<Rightarrow>
               (case stdout_write p env [newline] of
                  Some e \<Rightarrow> ([Write Stdout s], Some e)
                | None \<Rightarrow> ([Write Stdout s, Write Stdout [newline]], None))))"

subsection \<open>The script\<close>

text \<open>
  The state of a run of the loop: the actions so far, the records the loop variable has
  been bound to so far (bookkeeping only), and the exception that ended it, if any.
\<close>

record run =
  trace :: "event list"
  visited :: "pyobj list"
  raised :: "error option"

text \<open>
  The loop body \<^verbatim>\<open>print(m['id'])\<close>: the lookup, then the print of what it
  yields.
\<close>

definition body :: "'c platform \<Rightarrow> environ \<Rightarrow> pyobj \<Rightarrow> event list \<times> error option" where
  "body p env m =
     (case subscript m ''id'' of
        Inl e \<Rightarrow> ([], Some e)
      | Inr v \<Rightarrow> print p env v)"

text \<open>
  \<^verbatim>\<open>for m in ms: print(m['id'])\<close>. An exception in the body ends the loop at
  once; what was written before stays written.
\<close>

fun for_loop :: "'c platform \<Rightarrow> environ \<Rightarrow> pyobj list \<Rightarrow> run \<Rightarrow> run" where
  "for_loop p env [] r = r"
| "for_loop p env (m # ms) r =
     (case body p env m of
        (out, Some e) \<Rightarrow>
          r\<lparr>trace := trace r @ out, visited := visited r @ [m], raised := Some e\<rparr>
      | (out, None) \<Rightarrow>
          for_loop p env ms (r\<lparr>trace := trace r @ out, visited := visited r @ [m]\<rparr>))"

text \<open>
  The module body, statement by statement. There is no \<^verbatim>\<open>try\<close>: the first
  exception ends the script.
\<close>

definition script :: "'c platform \<Rightarrow> environ \<Rightarrow> run" where
  "script p env =
     (let key = getenv env ''ANTHROPIC_API_KEY'';
          t1 = [GetEnv ''ANTHROPIC_API_KEY'', NewClient key]
      in case Anthropic p key of
           Inl e \<Rightarrow> \<lparr>trace = t1, visited = [], raised = Some e\<rparr>
         | Inr client \<Rightarrow>
             (let t2 = t1 @ [ListModels []]
              in case models_list p client [] of
                   Inl e \<Rightarrow> \<lparr>trace = t2, visited = [], raised = Some e\<rparr>
                 | Inr page \<Rightarrow>
                     (case getattr page ''model_data'' of
                        Inl e \<Rightarrow> \<lparr>trace = t2, visited = [], raised = Some e\<rparr>
                      | Inr data \<Rightarrow>
                          (case iter data of
                             Inl e \<Rightarrow> \<lparr>trace = t2, visited = [], raised = Some e\<rparr>
                           | Inr ms \<Rightarrow>
                               for_loop p env ms \<lparr>trace = t2, visited = [], raised = None\<rparr>))))"

text \<open>
  The process: the interpreter runs the script; an exception that reaches the top is
  reported on standard error and the exit status is 1, otherwise the exit status is 0.
\<close>

record process =
  events :: "event list"
  exit_status :: nat

definition main :: "'c platform \<Rightarrow> environ \<Rightarrow> process" where
  "main p env =
     (let r = script p env
      in case raised r of
           None \<Rightarrow> \<lparr>events = trace r, exit_status = 0\<rparr>
         | Some e \<Rightarrow> \<lparr>events = trace r @ [Write Stderr (excepthook p env e)], exit_status = 1\<rparr>)"

text \<open>What a stream received: the texts written to it, in order, joined.\<close>

fun written :: "stream \<Rightarrow> event list \<Rightarrow> string" where
  "written s [] = []"
| "written s (Write s' txt # es) = (if s' = s then txt @ written s es else written s es)"
| "written s (_ # es) = written s es"

definition stdout :: "process \<Rightarrow> string" where
  "stdout pr = written Stdout (events pr)"

definition stderr :: "process \<Rightarrow> string" where
  "stderr pr = written Stderr (events pr)"

text \<open>
  The lines of a text: maximal runs of characters that are not newlines, each ended by a
  newline (a last run with no newline after it counts as a line too).
\<close>

fun lines_from :: "string \<Rightarrow> string \<Rightarrow> string list" where
  "lines_from cur [] = (if cur = [] then [] else [cur])"
| "lines_from cur (c # cs) =
     (if c = newline then cur # lines_from [] cs else lines_from (cur @ [c]) cs)"

definition lines_of :: "string \<Rightarrow> string list" where
  "lines_of s = lines_from [] s"

subsection \<open>Reading a run\<close>

text \<open>The keyword arguments of each call of \<^verbatim>\<open>client.models.list\<close>, in order.\<close>

fun list_calls :: "event list \<Rightarrow> (string \<times> pyobj) list list" where
  "list_calls [] = []"
| "list_calls (ListModels kwargs # es) = kwargs # list_calls es"
| "list_calls (_ # es) = list_calls es"


text \<open>
  The actions the statements of the script can perform: reading the credential variable,
  constructing the client, calling the list operation with no arguments, writing to
  standard output.
\<close>

fun by_script :: "event \<Rightarrow> bool" where
  "by_script (GetEnv name) = (name = ''ANTHROPIC_API_KEY'')"
| "by_script (NewClient key) = True"
| "by_script (ListModels kwargs) = (kwargs = [])"
| "by_script (Write s txt) = (s = Stdout)"

text \<open>A write to standard output.\<close>

fun to_stdout :: "event \<Rightarrow> bool" where
  "to_stdout (Write s txt) = (s = Stdout)"
| "to_stdout _ = False"

text \<open>
  The SDK refuses a credential when the constructor raises for it, or the constructor
  accepts it and the list call of the resulting client raises.
\<close>

definition refuses :: "'c platform \<Rightarrow> string option \<Rightarrow> bool" where
  "refuses p key =
     (case Anthropic p key of
        Inl e \<Rightarrow> True
      | Inr c \<Rightarrow> (case models_list p c [] of Inl e \<Rightarrow> True | Inr page \<Rightarrow> False))"

text \<open>
  The collection the \<^verbatim>\<open>for\<close> statement iterates over, when the run gets as
  far as the loop.
\<close>

definition reaches_loop :: "'c platform \<Rightarrow> environ \<Rightarrow> pyobj list option" where
  "reaches_loop p env =
     (case Anthropic p (getenv env ''ANTHROPIC_API_KEY'') of
        Inl e \<Rightarrow> None
      | Inr c \<Rightarrow>
          (case models_list p c [] of
             Inl e \<Rightarrow> None
           | Inr page \<Rightarrow>
               (case getattr page ''model_data'' of
                  Inl e \<Rightarrow> None
                | Inr data \<Rightarrow> (case iter data of Inl e \<Rightarrow> None | Inr ms \<Rightarrow> Some ms))))"

text \<open>A record passes the loop body when its lookup and every step of the print succeed.\<close>

definition passes :: "'c platform \<Rightarrow> environ \<Rightarrow> pyobj \<Rightarrow> bool" where
  "passes p env m =
     (case subscript m ''id'' of
        Inl e \<Rightarrow> False
      | Inr v \<Rightarrow>
          (case str p v of
             Inl e \<Rightarrow> False
           | Inr s \<Rightarrow> stdout_write p env s = None \<and> stdout_write p env [newline] = None))"

text \<open>
  The failure classes: \<open>step_fails p env e\<close> holds when some operation of the
  script, reached in program order, raises \<open>e\<close>: the constructor (missing or
  invalid credential), the remote call (network, authorization, rate limit), the
  handling of a response that has not the expected shape (no \<^verbatim>\<open>model_data\<close>,
  not iterable, a record without \<^verbatim>\<open>'id'\<close>), or a step of the print of a
  record that the records before it let the loop reach.
\<close>

inductive step_fails :: "'c platform \<Rightarrow> environ \<Rightarrow> error \<Rightarrow> bool" for p env where
  credential:
    "Anthropic p (getenv env ''ANTHROPIC_API_KEY'') = Inl e \<Longrightarrow> step_fails p env e"
| remote_call:
    "Anthropic p (getenv env ''ANTHROPIC_API_KEY'') = Inr c \<Longrightarrow>
     models_list p c [] = Inl e \<Longrightarrow> step_fails p env e"
| no_attribute:
    "Anthropic p (getenv env ''ANTHROPIC_API_KEY'') = Inr c \<Longrightarrow>
     models_list p c [] = Inr page \<Longrightarrow>
     getattr page ''model_data'' = Inl e \<Longrightarrow> step_fails p env e"
| not_iterable:
    "Anthropic p (getenv env ''ANTHROPIC_API_KEY'') = Inr c \<Longrightarrow>
     models_list p c [] = Inr page \<Longrightarrow>
     getattr page ''model_data'' = Inr data \<Longrightarrow>
     iter data = Inl e \<Longrightarrow> step_fails p env e"
| bad_record:
    "reaches_loop p env = Some (good @ bad # rest) \<Longrightarrow>
     list_all (passes p env) good \<Longrightarrow>
     subscript bad ''id'' = Inl e \<Longrightarrow> step_fails p env e"
| bad_str:
    "reaches_loop p env = Some (good @ bad # rest) \<Longrightarrow>
     list_all (passes p env) good \<Longrightarrow>
     subscript bad ''id'' = Inr v \<Longrightarrow>
     str p v = Inl e \<Longrightarrow> step_fails p env e"
| bad_write:
    "reaches_loop p env = Some (good @ bad # rest) \<Longrightarrow>
     list_all (passes p env) good \<Longrightarrow>
     subscript bad ''id'' = Inr v \<Longrightarrow>
     str p v = Inr s \<Longrightarrow>
     stdout_write p env s = Some e \<Longrightarrow> step_fails p env e"
| bad_newline:
    "reaches_loop p env = Some (good @ bad # rest) \<Longrightarrow>
     list_all (passes p env) good \<Longrightarrow>
     subscript bad ''id'' = Inr v \<Longrightarrow>
     str p v = Inr s \<Longrightarrow>
     stdout_write p env s = None \<Longrightarrow>
     stdout_write p env [newline] = Some e \<Longrightarrow> step_fails p env e"

subsection \<open>Test doubles\<close>

text \<open>
  A standard output whose encoding follows \<^verbatim>\<open>PYTHONIOENCODING\<close>: under
  \<^verbatim>\<open>ascii\<close> a text with a character above 127 is refused, otherwise every text
  is accepted.
\<close>

definition ascii_only :: "string \<Rightarrow> bool" where
  "ascii_only s = list_all (\<lambda>c. of_char c < (128::nat)) s"

definition encoded_write :: "environ \<Rightarrow> string \<Rightarrow> error option" where
  "encoded_write env s =
     (if env ''PYTHONIOENCODING'' = Some ''ascii'' \<and> \<not> ascii_only s
      then Some UnicodeEncodeError else None)"

text \<open>
  A mocked SDK: a constructor and the answer of the list call. \<open>needs_key\<close> is a
  constructor that raises when no key is given.
\<close>

definition mock :: "(string option \<Rightarrow> error + unit) \<Rightarrow> (error + pyobj) \<Rightarrow> unit platform" where
  "mock ctor answer =
     \<lparr>Anthropic = ctor, models_list = (\<lambda>client kwargs. answer),
      py_str = (\<lambda>v. Inr ''<value>''),
      stdout_write = encoded_write,
      excepthook = (\<lambda>env e. ''Traceback (most recent call last):'')\<rparr>"

definition needs_key :: "string option \<Rightarrow> error + unit" where
  "needs_key key = (case key of None \<Rightarrow> Inl (SdkError ''no api key'') | Some k \<Rightarrow> Inr ())"

text \<open>
  The page object of the published SDK's \<^verbatim>\<open>models.list\<close>: the models are under
  the attribute \<^verbatim>\<open>data\<close>, beside \<^verbatim>\<open>has_more\<close>, \<^verbatim>\<open>first_id\<close> and
  \<^verbatim>\<open>last_id\<close>; there is no attribute \<^verbatim>\<open>model_data\<close>. Each model is an
  object with attributes.
\<close>

definition sdk_model :: "string \<Rightarrow> string \<Rightarrow> pyobj" where
  "sdk_model ident name =
     PyObject [(''id'', PyStr ident), (''display_name'', PyStr name),
               (''created_at'', PyStr ''2024-02-29T00:00:00Z''), (''type'', PyStr ''model'')]"

definition sdk_two_models :: pyobj where
  "sdk_two_models =
     PyObject [(''data'', PyList [sdk_model ''claude-3-opus'' ''Claude 3 Opus'',
                                 sdk_model ''claude-3-sonnet'' ''Claude 3 Sonnet'']),
               (''has_more'', PyBool False),
               (''first_id'', PyStr ''claude-3-opus''),
               (''last_id'', PyStr ''claude-3-sonnet'')]"

definition sdk_no_models :: pyobj where
  "sdk_no_models =
     PyObject [(''data'', PyList []), (''has_more'', PyBool False),
               (''first_id'', PyNone), (''last_id'', PyNone)]"

text \<open>
  Pages of the shape the script expects, for a mocked SDK: the models as dicts under
  \<^verbatim>\<open>model_data\<close>. The scenario of the specification: two models, each record
  with further fields.
\<close>

definition two_models :: pyobj where
  "two_models = PyObject [(''model_data'', PyList
     [PyDict [(''id'', PyStr ''claude-3-opus''), (''display_name'', PyStr ''Claude 3 Opus'')],
      PyDict [(''type'', PyStr ''model''), (''id'', PyStr ''claude-3-sonnet'')]])]"

definition key_set :: environ where
  "key_set = [''ANTHROPIC_API_KEY'' \<mapsto> ''sk-test'']"

text \<open>
  Further pages: an identifier with a line break in it, a first entry that is no record,
  no models, an identifier with a character outside ASCII between two plain ones.
\<close>

definition newline_id_page :: pyobj where
  "newline_id_page =
     PyObject [(''model_data'', PyList [PyDict [(''id'', PyStr [CHR ''a'', newline, CHR ''b''])]])]"

definition bad_first_page :: pyobj where
  "bad_first_page =
     PyObject [(''model_data'', PyList [PyNone, PyDict [(''id'', PyStr ''claude-3-opus'')]])]"

definition empty_page :: pyobj where
  "empty_page = PyObject [(''model_data'', PyList [])]"

definition accented_page :: pyobj where
  "accented_page =
     PyObject [(''model_data'', PyList
       [PyDict [(''id'', PyStr ''ok'')], PyDict [(''id'', PyStr [CHR 0xE9])],
        PyDict [(''id'', PyStr ''later'')]])]"

text \<open>The two models again, each record with other fields than before.\<close>

definition two_models_bare :: pyobj where
  "two_models_bare = PyObject [(''model_data'', PyList
     [PyDict [(''id'', PyStr ''claude-3-opus'')],
      PyDict [(''id'', PyStr ''claude-3-sonnet''), (''created_at'', PyInt 0)]])]"

text \<open>Environments with the key and another variable.\<close>

definition key_and_home :: environ where
  "key_and_home = [''ANTHROPIC_API_KEY'' \<mapsto> ''sk-test'', ''HOME'' \<mapsto> ''/root'']"

definition key_and_ascii :: environ where
  "key_and_ascii = [''ANTHROPIC_API_KEY'' \<mapsto> ''sk-test'', ''PYTHONIOENCODING'' \<mapsto> ''ascii'']"

section \<open>Properties\<close>

subsection \<open>Traces and the loop\<close>

lemma written_append: "written s (a @ b) = written s a @ written s b"
  by (induction s a rule: written.induct) auto

lemma list_calls_append: "list_calls (a @ b) = list_calls a @ list_calls b"
  by (induction a rule: list_calls.induct) auto


lemma to_stdout_stderr: "list_all to_stdout es \<Longrightarrow> written Stderr es = []"
proof (induction es)
  case Nil
  then show ?case by simp
next
  case (Cons e es)
  then show ?case by (cases e) simp_all
qed

lemma to_stdout_list_calls: "list_all to_stdout es \<Longrightarrow> list_calls es = []"
  by (induction es rule: list_calls.induct) auto


lemma to_stdout_by_script: "list_all to_stdout es \<Longrightarrow> list_all by_script es"
proof (induction es)
  case Nil
  then show ?case by simp
next
  case (Cons e es)
  then show ?case by (cases e) simp_all
qed

lemma print_to_stdout:
  "list_all to_stdout (fst (print p env v)) \<and> length (fst (print p env v)) \<le> 2"
  by (simp add: print_def split: sum.splits option.splits)

lemma body_to_stdout:
  "list_all to_stdout (fst (body p env m)) \<and> length (fst (body p env m)) \<le> 2"
  by (simp add: body_def print_to_stdout split: sum.splits)

lemma passes_body: "passes p env m = (snd (body p env m) = None)"
  by (simp add: passes_def body_def print_def split: sum.splits option.splits)

lemma passes_out:
  "subscript m ''id'' = Inr (PyStr i) \<Longrightarrow> passes p env m \<Longrightarrow>
   fst (body p env m) = [Write Stdout i, Write Stdout [newline]]"
  by (simp add: passes_def body_def print_def split: option.splits)

text \<open>One pass of the loop, by what the body does with the record.\<close>

lemma for_loop_step_ok:
  "snd (body p env m) = None \<Longrightarrow>
   for_loop p env (m # ms) r =
     for_loop p env ms (r\<lparr>trace := trace r @ fst (body p env m), visited := visited r @ [m]\<rparr>)"
  by (cases "body p env m") simp

lemma for_loop_step_raise:
  "snd (body p env m) = Some e \<Longrightarrow>
   for_loop p env (m # ms) r =
     r\<lparr>trace := trace r @ fst (body p env m), visited := visited r @ [m], raised := Some e\<rparr>"
  by (cases "body p env m") simp

declare for_loop.simps(2) [simp del]

lemma for_loop_pass:
  "list_all (passes p env) good \<Longrightarrow>
   for_loop p env (good @ rest) r =
     for_loop p env rest
       (r\<lparr>trace := trace r @ concat (map (\<lambda>m. fst (body p env m)) good),
          visited := visited r @ good\<rparr>)"
proof (induction good arbitrary: r)
  case Nil
  then show ?case by simp
next
  case (Cons m good)
  from Cons.prems have "passes p env m" and good: "list_all (passes p env) good"
    by simp_all
  then have m: "snd (body p env m) = None"
    by (simp add: passes_body)
  show ?case
    by (simp add: for_loop_step_ok [OF m] Cons.IH [OF good])
qed

lemma for_loop_all_pass:
  "list_all (passes p env) ms \<Longrightarrow>
   for_loop p env ms r =
     r\<lparr>trace := trace r @ concat (map (\<lambda>m. fst (body p env m)) ms),
       visited := visited r @ ms\<rparr>"
  using for_loop_pass [of p env ms "[]" r] by simp

lemma for_loop_stop:
  "list_all (passes p env) good \<Longrightarrow> snd (body p env bad) = Some e \<Longrightarrow>
   for_loop p env (good @ bad # rest) r =
     r\<lparr>trace := trace r @ concat (map (\<lambda>m. fst (body p env m)) good) @ fst (body p env bad),
       visited := visited r @ good @ [bad], raised := Some e\<rparr>"
proof -
  assume good: "list_all (passes p env) good" and bad: "snd (body p env bad) = Some e"
  let ?r = "r\<lparr>trace := trace r @ concat (map (\<lambda>m. fst (body p env m)) good),
    visited := visited r @ good\<rparr>"
  have "for_loop p env (good @ bad # rest) r = for_loop p env (bad # rest) ?r"
    by (rule for_loop_pass [OF good])
  also have "\<dots> = ?r\<lparr>trace := trace ?r @ fst (body p env bad),
      visited := visited ?r @ [bad], raised := Some e\<rparr>"
    by (rule for_loop_step_raise [OF bad])
  finally show ?thesis by simp
qed

text \<open>Every list of records is a run of passing records and, maybe, a first failing one.\<close>

lemma records_split:
  "list_all (passes p env) ms \<or>
   (\<exists>good bad rest e. ms = good @ bad # rest \<and> list_all (passes p env) good \<and>
      snd (body p env bad) = Some e)"
proof (induction ms)
  case Nil
  then show ?case by simp
next
  case (Cons m ms)
  show ?case
  proof (cases "snd (body p env m)")
    case (Some e)
    then have "m # ms = [] @ m # ms \<and> list_all (passes p env) [] \<and>
      snd (body p env m) = Some e" by simp
    then show ?thesis by blast
  next
    case None
    then have m: "passes p env m" by (simp add: passes_body)
    from Cons.IH show ?thesis
    proof
      assume "list_all (passes p env) ms"
      with m show ?thesis by simp
    next
      assume "\<exists>good bad rest e. ms = good @ bad # rest \<and> list_all (passes p env) good \<and>
        snd (body p env bad) = Some e"
      then obtain good bad rest e where "ms = good @ bad # rest"
        "list_all (passes p env) good" "snd (body p env bad) = Some e"
        by blast
      with m have "m # ms = (m # good) @ bad # rest \<and> list_all (passes p env) (m # good) \<and>
        snd (body p env bad) = Some e" by simp
      then show ?thesis by blast
    qed
  qed
qed

lemma bodies_to_stdout:
  "list_all to_stdout (concat (map (\<lambda>m. fst (body p env m)) ms)) \<and>
   length (concat (map (\<lambda>m. fst (body p env m)) ms)) \<le> 2 * length ms"
proof (induction ms)
  case Nil
  then show ?case by simp
next
  case (Cons m ms)
  with body_to_stdout [of p env m] show ?case by simp
qed

text \<open>
  What the loop leaves behind, whatever the records: writes to standard output, at most
  two for each record visited; the records visited are a prefix of the list; and with no
  exception raised the whole list.
\<close>

lemma for_loop_shape:
  "\<exists>out k. trace (for_loop p env ms r) = trace r @ out \<and> list_all to_stdout out \<and>
     length out \<le> 2 * k \<and> k \<le> length ms \<and>
     visited (for_loop p env ms r) = visited r @ take k ms \<and>
     (raised (for_loop p env ms r) = raised r \<and> k = length ms \<or>
      raised (for_loop p env ms r) \<noteq> None)"
proof -
  from records_split [of p env ms] show ?thesis
  proof
    assume ok: "list_all (passes p env) ms"
    let ?out = "concat (map (\<lambda>m. fst (body p env m)) ms)"
    have "trace (for_loop p env ms r) = trace r @ ?out \<and> list_all to_stdout ?out \<and>
      length ?out \<le> 2 * length ms \<and> length ms \<le> length ms \<and>
      visited (for_loop p env ms r) = visited r @ take (length ms) ms \<and>
      (raised (for_loop p env ms r) = raised r \<and> length ms = length ms \<or>
       raised (for_loop p env ms r) \<noteq> None)"
      using bodies_to_stdout [of p env ms] by (simp add: for_loop_all_pass [OF ok])
    then show ?thesis by blast
  next
    assume "\<exists>good bad rest e. ms = good @ bad # rest \<and> list_all (passes p env) good \<and>
      snd (body p env bad) = Some e"
    then obtain good bad rest e where ms: "ms = good @ bad # rest"
      and good: "list_all (passes p env) good" and bad: "snd (body p env bad) = Some e"
      by blast
    let ?out = "concat (map (\<lambda>m. fst (body p env m)) good) @ fst (body p env bad)"
    let ?k = "Suc (length good)"
    have "trace (for_loop p env ms r) = trace r @ ?out \<and> list_all to_stdout ?out \<and>
      length ?out \<le> 2 * ?k \<and> ?k \<le> length ms \<and>
      visited (for_loop p env ms r) = visited r @ take ?k ms \<and>
      (raised (for_loop p env ms r) = raised r \<and> ?k = length ms \<or>
       raised (for_loop p env ms r) \<noteq> None)"
      using bodies_to_stdout [of p env good] body_to_stdout [of p env bad]
      by (simp add: ms for_loop_stop [OF good bad])
    then show ?thesis by blast
  qed
qed

subsection \<open>The script, step by step\<close>

lemma script_ctor_fails:
  "Anthropic p (getenv env ''ANTHROPIC_API_KEY'') = Inl e \<Longrightarrow>
   script p env =
     \<lparr>trace = [GetEnv ''ANTHROPIC_API_KEY'', NewClient (getenv env ''ANTHROPIC_API_KEY'')],
      visited = [], raised = Some e\<rparr>"
  by (simp add: script_def)

lemma script_call_fails:
  "Anthropic p (getenv env ''ANTHROPIC_API_KEY'') = Inr c \<Longrightarrow> models_list p c [] = Inl e \<Longrightarrow>
   script p env =
     \<lparr>trace = [GetEnv ''ANTHROPIC_API_KEY'', NewClient (getenv env ''ANTHROPIC_API_KEY''),
               ListModels []],
      visited = [], raised = Some e\<rparr>"
  by (simp add: script_def)

lemma script_no_attribute:
  "Anthropic p (getenv env ''ANTHROPIC_API_KEY'') = Inr c \<Longrightarrow> models_list p c [] = Inr page \<Longrightarrow>
   getattr page ''model_data'' = Inl e \<Longrightarrow>
   script p env =
     \<lparr>trace = [GetEnv ''ANTHROPIC_API_KEY'', NewClient (getenv env ''ANTHROPIC_API_KEY''),
               ListModels []],
      visited = [], raised = Some e\<rparr>"
  by (simp add: script_def)

lemma script_not_iterable:
  "Anthropic p (getenv env ''ANTHROPIC_API_KEY'') = Inr c \<Longrightarrow> models_list p c [] = Inr page \<Longrightarrow>
   getattr page ''model_data'' = Inr data \<Longrightarrow> iter data = Inl e \<Longrightarrow>
   script p env =
     \<lparr>trace = [GetEnv ''ANTHROPIC_API_KEY'', NewClient (getenv env ''ANTHROPIC_API_KEY''),
               ListModels []],
      visited = [], raised = Some e\<rparr>"
  by (simp add: script_def)

lemma script_listed:
  "Anthropic p (getenv env ''ANTHROPIC_API_KEY'') = Inr c \<Longrightarrow> models_list p c [] = Inr page \<Longrightarrow>
   getattr page ''model_data'' = Inr data \<Longrightarrow> iter data = Inr ms \<Longrightarrow>
   script p env =
     for_loop p env ms
       \<lparr>trace = [GetEnv ''ANTHROPIC_API_KEY'', NewClient (getenv env ''ANTHROPIC_API_KEY''),
                 ListModels []],
        visited = [], raised = None\<rparr>"
  by (simp add: script_def)

lemma reaches_loop_listed:
  "Anthropic p (getenv env ''ANTHROPIC_API_KEY'') = Inr c \<Longrightarrow> models_list p c [] = Inr page \<Longrightarrow>
   getattr page ''model_data'' = Inr data \<Longrightarrow> iter data = Inr ms \<Longrightarrow>
   reaches_loop p env = Some ms"
  by (simp add: reaches_loop_def)

lemma script_reached:
  "reaches_loop p env = Some ms \<Longrightarrow>
   (\<exists>c. Anthropic p (getenv env ''ANTHROPIC_API_KEY'') = Inr c) \<and>
   script p env =
     for_loop p env ms
       \<lparr>trace = [GetEnv ''ANTHROPIC_API_KEY'', NewClient (getenv env ''ANTHROPIC_API_KEY''),
                 ListModels []],
        visited = [], raised = None\<rparr>"
  by (auto simp: reaches_loop_def script_def split: sum.splits)

lemma script_not_reached:
  "reaches_loop p env = None \<Longrightarrow>
   visited (script p env) = [] \<and> raised (script p env) \<noteq> None \<and>
   trace (script p env) =
     GetEnv ''ANTHROPIC_API_KEY'' # NewClient (getenv env ''ANTHROPIC_API_KEY'') #
       (case Anthropic p (getenv env ''ANTHROPIC_API_KEY'') of
          Inl e \<Rightarrow> []
        | Inr c \<Rightarrow> [ListModels []])"
  by (auto simp: reaches_loop_def script_def split: sum.splits)

text \<open>
  The actions of the script, whatever happens: the read of the key, the construction of
  the client with what was read, then, if there is a client, the one list call and writes
  to standard output, at most two for each record visited.
\<close>

lemma script_trace:
  "\<exists>out. trace (script p env) =
     GetEnv ''ANTHROPIC_API_KEY'' # NewClient (getenv env ''ANTHROPIC_API_KEY'') #
       (case Anthropic p (getenv env ''ANTHROPIC_API_KEY'') of
          Inl e \<Rightarrow> []
        | Inr c \<Rightarrow> ListModels [] # out) \<and>
     list_all to_stdout out \<and> length out \<le> 2 * length (visited (script p env))"
proof (cases "reaches_loop p env")
  case None
  have "list_all to_stdout [] \<and> length ([] :: event list) \<le> 2 * length (visited (script p env))"
    by simp
  with script_not_reached [OF None] show ?thesis
    by (cases "Anthropic p (getenv env ''ANTHROPIC_API_KEY'')") auto
next
  case (Some ms)
  let ?r0 = "\<lparr>trace = [GetEnv ''ANTHROPIC_API_KEY'',
      NewClient (getenv env ''ANTHROPIC_API_KEY''), ListModels []],
    visited = [], raised = None\<rparr>"
  from script_reached [OF Some] obtain c
    where c: "Anthropic p (getenv env ''ANTHROPIC_API_KEY'') = Inr c"
      and s: "script p env = for_loop p env ms ?r0"
    by blast
  from for_loop_shape [of p env ms ?r0] obtain out k
    where "trace (for_loop p env ms ?r0) = trace ?r0 @ out" "list_all to_stdout out"
      "length out \<le> 2 * k" "k \<le> length ms"
      "visited (for_loop p env ms ?r0) = visited ?r0 @ take k ms"
    by blast
  then have "trace (script p env) =
      GetEnv ''ANTHROPIC_API_KEY'' # NewClient (getenv env ''ANTHROPIC_API_KEY'') #
        ListModels [] # out \<and>
      list_all to_stdout out \<and> length out \<le> 2 * length (visited (script p env))"
    by (simp add: s)
  with c show ?thesis by auto
qed

lemma script_stderr: "written Stderr (trace (script p env)) = []"
proof -
  obtain out where "trace (script p env) =
    GetEnv ''ANTHROPIC_API_KEY'' # NewClient (getenv env ''ANTHROPIC_API_KEY'') #
      (case Anthropic p (getenv env ''ANTHROPIC_API_KEY'') of
         Inl e \<Rightarrow> []
       | Inr c \<Rightarrow> ListModels [] # out)" and "list_all to_stdout out"
    using script_trace [of p env] by blast
  then show ?thesis
    by (simp add: to_stdout_stderr split: sum.splits)
qed

lemma script_list_calls:
  "list_calls (trace (script p env)) =
     (case Anthropic p (getenv env ''ANTHROPIC_API_KEY'') of Inl e \<Rightarrow> [] | Inr c \<Rightarrow> [[]])"
proof -
  obtain out where "trace (script p env) =
    GetEnv ''ANTHROPIC_API_KEY'' # NewClient (getenv env ''ANTHROPIC_API_KEY'') #
      (case Anthropic p (getenv env ''ANTHROPIC_API_KEY'') of
         Inl e \<Rightarrow> []
       | Inr c \<Rightarrow> ListModels [] # out)" and "list_all to_stdout out"
    using script_trace [of p env] by blast
  then show ?thesis
    by (simp add: to_stdout_list_calls split: sum.splits)
qed


lemma script_by_script: "list_all by_script (trace (script p env))"
proof -
  obtain out where "trace (script p env) =
    GetEnv ''ANTHROPIC_API_KEY'' # NewClient (getenv env ''ANTHROPIC_API_KEY'') #
      (case Anthropic p (getenv env ''ANTHROPIC_API_KEY'') of
         Inl e \<Rightarrow> []
       | Inr c \<Rightarrow> ListModels [] # out)" and "list_all to_stdout out"
    using script_trace [of p env] by blast
  then show ?thesis
    by (simp add: to_stdout_by_script split: sum.splits)
qed



lemma main_events:
  "events (main p env) =
     trace (script p env) @
       (case raised (script p env) of None \<Rightarrow> [] | Some e \<Rightarrow> [Write Stderr (excepthook p env e)])"
  by (simp add: main_def Let_def split: option.splits)

lemma main_exit:
  "exit_status (main p env) = (case raised (script p env) of None \<Rightarrow> 0 | Some e \<Rightarrow> 1)"
  by (simp add: main_def Let_def split: option.splits)

lemma stdout_main: "stdout (main p env) = written Stdout (trace (script p env))"
  by (simp add: stdout_def main_events written_append split: option.splits)

lemma stderr_main:
  "stderr (main p env) = (case raised (script p env) of None \<Rightarrow> [] | Some e \<Rightarrow> excepthook p env e)"
  by (simp add: stderr_def main_events written_append script_stderr split: option.splits)

subsection \<open>Failing steps\<close>

lemma body_raises:
  "snd (body p env m) = Some e \<longleftrightarrow>
     subscript m ''id'' = Inl e \<or>
     (\<exists>v. subscript m ''id'' = Inr v \<and>
        (str p v = Inl e \<or>
         (\<exists>s. str p v = Inr s \<and>
            (stdout_write p env s = Some e \<or>
             stdout_write p env s = None \<and> stdout_write p env [newline] = Some e))))"
  by (auto simp: body_def print_def split: sum.splits option.splits)

lemma loop_fails_raised:
  assumes reach: "reaches_loop p env = Some (good @ bad # rest)"
    and good: "list_all (passes p env) good"
    and bad: "snd (body p env bad) = Some e"
  shows "raised (script p env) = Some e"
proof -
  from script_reached [OF reach] show ?thesis
    by (simp add: for_loop_stop [OF good bad])
qed

lemma step_fails_raised:
  assumes "step_fails p env e"
  shows "raised (script p env) = Some e"
  using assms
proof cases
  case credential
  then show ?thesis by (simp add: script_ctor_fails)
next
  case (remote_call c)
  then show ?thesis by (simp add: script_call_fails)
next
  case (no_attribute c page)
  then show ?thesis by (simp add: script_no_attribute)
next
  case (not_iterable c page data)
  then show ?thesis by (simp add: script_not_iterable)
next
  case (bad_record good bad rest)
  then have "snd (body p env bad) = Some e" by (simp add: body_raises)
  with bad_record show ?thesis by (intro loop_fails_raised)
next
  case (bad_str good bad rest v)
  then have "snd (body p env bad) = Some e" by (simp add: body_raises)
  with bad_str show ?thesis by (intro loop_fails_raised)
next
  case (bad_write good bad rest v s)
  then have "snd (body p env bad) = Some e" by (simp add: body_raises)
  with bad_write show ?thesis by (intro loop_fails_raised)
next
  case (bad_newline good bad rest v s)
  then have "snd (body p env bad) = Some e" by (simp add: body_raises)
  with bad_newline show ?thesis by (intro loop_fails_raised)
qed

text \<open>Conversely, an exception that ends the script is the failure of one of its steps.\<close>

lemma raised_step_fails:
  assumes r: "raised (script p env) = Some e"
  shows "step_fails p env e"
proof (cases "reaches_loop p env")
  case None
  with r show ?thesis
    by (auto simp: reaches_loop_def script_def split: sum.splits
        intro: step_fails.credential step_fails.remote_call step_fails.no_attribute
          step_fails.not_iterable)
next
  case (Some ms)
  let ?r0 = "\<lparr>trace = [GetEnv ''ANTHROPIC_API_KEY'',
      NewClient (getenv env ''ANTHROPIC_API_KEY''), ListModels []],
    visited = [], raised = None\<rparr>"
  from script_reached [OF Some] have s: "script p env = for_loop p env ms ?r0" by blast
  from records_split [of p env ms] show ?thesis
  proof
    assume "list_all (passes p env) ms"
    then have "raised (script p env) = None"
      by (simp add: s for_loop_all_pass)
    with r show ?thesis by simp
  next
    assume "\<exists>good bad rest e. ms = good @ bad # rest \<and> list_all (passes p env) good \<and>
      snd (body p env bad) = Some e"
    then obtain good bad rest e' where ms: "ms = good @ bad # rest"
      and good: "list_all (passes p env) good" and bad: "snd (body p env bad) = Some e'"
      by blast
    then have "raised (script p env) = Some e'"
      by (simp add: s for_loop_stop)
    with r have "e' = e" by simp
    with bad have "snd (body p env bad) = Some e" by simp
    then consider "subscript bad ''id'' = Inl e"
      | v where "subscript bad ''id'' = Inr v" "str p v = Inl e"
      | v s where "subscript bad ''id'' = Inr v" "str p v = Inr s" "stdout_write p env s = Some e"
      | v s where "subscript bad ''id'' = Inr v" "str p v = Inr s" "stdout_write p env s = None"
          "stdout_write p env [newline] = Some e"
      unfolding body_raises by blast
    then show ?thesis
    proof cases
      case 1
      with Some ms good show ?thesis by (intro step_fails.bad_record) simp_all
    next
      case 2
      with Some ms good show ?thesis by (intro step_fails.bad_str) simp_all
    next
      case 3
      with Some ms good show ?thesis by (intro step_fails.bad_write) simp_all
    next
      case 4
      with Some ms good show ?thesis by (intro step_fails.bad_newline) simp_all
    qed
  qed
qed

subsection \<open>What the loop depends on\<close>

lemma str_update: "str (p\<lparr>models_list := f\<rparr>) v = str p v"
  by (cases v) simp_all

lemma print_update: "print (p\<lparr>models_list := f\<rparr>) env v = print p env v"
  by (simp add: print_def str_update split: sum.splits option.splits)

lemma body_update: "body (p\<lparr>models_list := f\<rparr>) env m = body p env m"
  by (simp add: body_def print_update split: sum.splits)

lemma for_loop_update: "for_loop (p\<lparr>models_list := f\<rparr>) env ms r = for_loop p env ms r"
  by (induction ms arbitrary: r) (simp_all add: for_loop.simps(2) body_update)

lemma body_same_id: "subscript m ''id'' = subscript m' ''id'' \<Longrightarrow> body p env m = body p env m'"
  by (simp add: body_def)

lemma for_loop_same_ids:
  "map (\<lambda>m. subscript m ''id'') ms1 = map (\<lambda>m. subscript m ''id'') ms2 \<Longrightarrow>
   trace r1 = trace r2 \<Longrightarrow> raised r1 = raised r2 \<Longrightarrow>
   trace (for_loop p env ms1 r1) = trace (for_loop p env ms2 r2) \<and>
   raised (for_loop p env ms1 r1) = raised (for_loop p env ms2 r2)"
proof (induction ms1 arbitrary: ms2 r1 r2)
  case Nil
  then show ?case by simp
next
  case (Cons m ms1)
  from Cons.prems(1) obtain m' ms2' where ms2: "ms2 = m' # ms2'"
    and hd: "subscript m ''id'' = subscript m' ''id''"
    and tl: "map (\<lambda>m. subscript m ''id'') ms1 = map (\<lambda>m. subscript m ''id'') ms2'"
    by (auto simp: Cons_eq_map_conv)
  have b: "body p env m = body p env m'"
    by (rule body_same_id [OF hd])
  show ?case
  proof (cases "snd (body p env m')")
    case (Some e)
    with b have s: "snd (body p env m) = Some e" by simp
    from b Cons.prems(2,3) show ?thesis
      by (simp add: ms2 for_loop_step_raise [OF s] for_loop_step_raise [OF Some])
  next
    case None
    with b have n: "snd (body p env m) = None" by simp
    let ?r1 = "r1\<lparr>trace := trace r1 @ fst (body p env m), visited := visited r1 @ [m]\<rparr>"
    let ?r2 = "r2\<lparr>trace := trace r2 @ fst (body p env m'), visited := visited r2 @ [m']\<rparr>"
    have t: "trace ?r1 = trace ?r2"
      using Cons.prems(2) b by simp
    have e: "raised ?r1 = raised ?r2"
      using Cons.prems(3) by simp
    from Cons.IH [OF tl t e] show ?thesis
      by (simp add: ms2 for_loop_step_ok [OF n] for_loop_step_ok [OF None])
  qed
qed




subsection \<open>Lines\<close>

lemma lines_from_line:
  "newline \<notin> set i \<Longrightarrow> lines_from cur (i @ newline # rest) = (cur @ i) # lines_from [] rest"
  by (induction i arbitrary: cur) auto

lemma lines_of_ids:
  "list_all (\<lambda>i. newline \<notin> set i) ids \<Longrightarrow> lines_of (concat (map (\<lambda>i. i @ [newline]) ids)) = ids"
proof (induction ids)
  case Nil
  then show ?case by (simp add: lines_of_def)
next
  case (Cons i ids)
  then have "newline \<notin> set i" and IH: "lines_from [] (concat (map (\<lambda>i. i @ [newline]) ids)) = ids"
    by (simp_all add: lines_of_def)
  then show ?case
    using lines_from_line [of i "[]" "concat (map (\<lambda>i. i @ [newline]) ids)"]
    by (simp add: lines_of_def)
qed

lemmas mock_defs = mock_def needs_key_def key_set_def getenv_def two_models_def
  newline_id_page_def bad_first_page_def empty_page_def two_models_bare_def key_and_home_def
  key_and_ascii_def accented_page_def sdk_two_models_def sdk_no_models_def sdk_model_def
  encoded_write_def ascii_only_def

lemmas run_defs = main_def script_def stdout_def stderr_def print_def body_def lines_of_def
  for_loop.simps(2)

subsection \<open>Output\<close>

text \<open>
  C1. The specification asks that a response listing N models gives N lines, the k-th
  being the k-th identifier. The script does not do that on the page the SDK returns:
  it reads the attribute \<^verbatim>\<open>model_data\<close>, the page keeps its models under
  \<^verbatim>\<open>data\<close>, so the attribute access raises before the loop is entered. For a
  response listing the two models \<^verbatim>\<open>claude-3-opus\<close> and
  \<^verbatim>\<open>claude-3-sonnet\<close>, with the key set, the run ends with AttributeError,
  nothing on standard output and exit status 1.
\<close>

theorem sdk_page_identifiers_not_printed:
  "getattr sdk_two_models ''data'' =
     Inr (PyList [sdk_model ''claude-3-opus'' ''Claude 3 Opus'',
                  sdk_model ''claude-3-sonnet'' ''Claude 3 Sonnet'']) \<and>
   raised (script (mock needs_key (Inr sdk_two_models)) key_set) =
     Some (AttributeError ''model_data'') \<and>
   stdout (main (mock needs_key (Inr sdk_two_models)) key_set) = [] \<and>
   exit_status (main (mock needs_key (Inr sdk_two_models)) key_set) = 1"
  by (simp add: mock_def needs_key_def key_set_def getenv_def sdk_two_models_def run_defs)

text \<open>
  C2. The specification asks that an empty model list gives no output and exit status 0.
  On the page the SDK returns for an empty list the script raises AttributeError at the
  same attribute access: nothing is printed, but the exit status is 1.
\<close>

theorem sdk_page_empty_list_exits_1:
  "getattr sdk_no_models ''data'' = Inr (PyList []) \<and>
   raised (script (mock needs_key (Inr sdk_no_models)) key_set) =
     Some (AttributeError ''model_data'') \<and>
   stdout (main (mock needs_key (Inr sdk_no_models)) key_set) = [] \<and>
   exit_status (main (mock needs_key (Inr sdk_no_models)) key_set) = 1"
  by (simp add: mock_def needs_key_def key_set_def getenv_def sdk_no_models_def run_defs)

text \<open>
  What the loop prints when it is reached with a list of dicts whose identifiers are
  strings and every write is accepted: each identifier and a newline, in order; these are
  the identifiers line by line when none of them contains a newline.
\<close>

lemma model_data_page_output:
  assumes reach: "reaches_loop p env = Some ms"
    and ids: "map (\<lambda>m. subscript m ''id'') ms = map (\<lambda>i. Inr (PyStr i)) ids"
    and ok: "list_all (passes p env) ms"
  shows "stdout (main p env) = concat (map (\<lambda>i. i @ [newline]) ids) \<and>
         exit_status (main p env) = 0 \<and>
         (list_all (\<lambda>i. newline \<notin> set i) ids \<longrightarrow> lines_of (stdout (main p env)) = ids)"
proof -
  let ?r0 = "\<lparr>trace = [GetEnv ''ANTHROPIC_API_KEY'',
      NewClient (getenv env ''ANTHROPIC_API_KEY''), ListModels []],
    visited = [], raised = None\<rparr>"
  from script_reached [OF reach] have s: "script p env = for_loop p env ms ?r0" by blast
  have w: "written Stdout (concat (map (\<lambda>m. fst (body p env m)) ms)) =
      concat (map (\<lambda>i. i @ [newline]) ids)"
    using ids ok
  proof (induction ms arbitrary: ids)
    case Nil
    then show ?case by simp
  next
    case (Cons m ms)
    from Cons.prems(1) obtain i ids' where ids: "ids = i # ids'"
      and m: "subscript m ''id'' = Inr (PyStr i)"
      and rest: "map (\<lambda>m. subscript m ''id'') ms = map (\<lambda>i. Inr (PyStr i)) ids'"
      by (auto simp: Cons_eq_map_conv)
    from Cons.prems(2) have pm: "passes p env m" and pms: "list_all (passes p env) ms"
      by simp_all
    show ?case
      by (simp add: ids passes_out [OF m pm] written_append Cons.IH [OF rest pms])
  qed
  have out: "stdout (main p env) = concat (map (\<lambda>i. i @ [newline]) ids)"
    by (simp add: stdout_main s for_loop_all_pass [OF ok] written_append w)
  have ex: "exit_status (main p env) = 0"
    by (simp add: main_exit s for_loop_all_pass [OF ok])
  show ?thesis
    by (simp add: out ex lines_of_ids)
qed

text \<open>
  An identifier is printed as it is: one record whose identifier contains a newline gives
  two lines.
\<close>

lemma one_identifier_two_lines:
  "lines_of (stdout (main (mock needs_key (Inr newline_id_page)) key_set)) = [''a'', ''b'']"
  by (simp add: mock_defs run_defs newline_def)

subsection \<open>Failures\<close>

text \<open>
  C3, counterexample to the claim as stated: the variable is absent, the script hands
  \<^verbatim>\<open>None\<close> to the constructor without a check of its own, and an SDK that
  accepts it (one with another source for the credential) lists the models: identifiers
  are printed and the exit status is 0.
\<close>

theorem missing_key_accepted_by_sdk:
  "getenv Map.empty ''ANTHROPIC_API_KEY'' = None \<and>
   exit_status (main (mock (\<lambda>key. Inr ()) (Inr two_models)) Map.empty) = 0 \<and>
   stdout (main (mock (\<lambda>key. Inr ()) (Inr two_models)) Map.empty) =
     ''claude-3-opus'' @ [newline] @ ''claude-3-sonnet'' @ [newline]"
  by (simp add: mock_defs run_defs)

text \<open>
  C3 (as amended). When the variable is absent the script passes \<^verbatim>\<open>None\<close>
  as the key; if the SDK refuses it (the constructor or the list call raises), the exit
  status is not 0 and nothing is written to standard output.
\<close>

theorem missing_key_refused:
  assumes absent: "getenv env ''ANTHROPIC_API_KEY'' = None"
    and refused: "refuses p None"
  shows "NewClient None \<in> set (events (main p env)) \<and>
         exit_status (main p env) \<noteq> 0 \<and> stdout (main p env) = []"
proof (cases "Anthropic p None")
  case (Inl e)
  with absent have "script p env =
    \<lparr>trace = [GetEnv ''ANTHROPIC_API_KEY'', NewClient None], visited = [], raised = Some e\<rparr>"
    using script_ctor_fails [of p env e] by simp
  then show ?thesis
    by (simp add: stdout_main main_exit main_events)
next
  case ctor: (Inr c)
  with refused obtain e where "models_list p c [] = Inl e"
    by (auto simp: refuses_def split: sum.splits)
  with ctor absent have "script p env =
    \<lparr>trace = [GetEnv ''ANTHROPIC_API_KEY'', NewClient None, ListModels []],
     visited = [], raised = Some e\<rparr>"
    using script_call_fails [of p env c e] by simp
  then show ?thesis
    by (simp add: stdout_main main_exit main_events)
qed

text \<open>C3, witness: no variable set, a constructor that insists on a key.\<close>

theorem missing_key_refused_witness:
  "NewClient None \<in> set (events (main (mock needs_key (Inr two_models)) Map.empty)) \<and>
   exit_status (main (mock needs_key (Inr two_models)) Map.empty) \<noteq> 0 \<and>
   stdout (main (mock needs_key (Inr two_models)) Map.empty) = []"
proof -
  have absent: "getenv Map.empty ''ANTHROPIC_API_KEY'' = None"
    by (simp add: getenv_def)
  have refused: "refuses (mock needs_key (Inr two_models)) None"
    by (simp add: refuses_def mock_def needs_key_def)
  from missing_key_refused [OF absent refused] show ?thesis .
qed

text \<open>
  C4. When the remote list call raises, whatever the reason, the exit status is not 0
  and nothing is written to standard output: printing starts after the call returns.
\<close>

theorem failed_call_prints_nothing:
  assumes ctor: "Anthropic p (getenv env ''ANTHROPIC_API_KEY'') = Inr c"
    and call: "models_list p c [] = Inl e"
  shows "exit_status (main p env) \<noteq> 0 \<and> stdout (main p env) = []"
  by (simp add: stdout_main main_exit script_call_fails [OF ctor call])

text \<open>C4, witness: a connection error in the list call.\<close>

theorem failed_call_prints_nothing_witness:
  "exit_status (main (mock needs_key (Inl (SdkError ''Connection error.''))) key_set) \<noteq> 0 \<and>
   stdout (main (mock needs_key (Inl (SdkError ''Connection error.''))) key_set) = []"
proof -
  let ?p = "mock needs_key (Inl (SdkError ''Connection error.''))"
  have ctor: "Anthropic ?p (getenv key_set ''ANTHROPIC_API_KEY'') = Inr ()"
    by (simp add: mock_defs)
  have call: "models_list ?p () [] = Inl (SdkError ''Connection error.'')"
    by (simp add: mock_def)
  from failed_call_prints_nothing [OF ctor call] show ?thesis .
qed

text \<open>
  C5. Whatever step fails (the constructor on a missing or invalid credential, the
  remote call on a network or authorization failure, the handling of a malformed
  response), the exception that step raised is the one that ends the script, unchanged:
  the exit status is 1, the interpreter's report of that very exception is what standard
  error receives, and the list operation was called at most once (nothing is retried).
\<close>

theorem failure_reaches_process_boundary:
  assumes "step_fails p env e"
  shows "raised (script p env) = Some e \<and> exit_status (main p env) = 1 \<and>
         stderr (main p env) = excepthook p env e \<and>
         length (list_calls (events (main p env))) \<le> 1"
proof -
  from assms have r: "raised (script p env) = Some e"
    by (rule step_fails_raised)
  have "length (list_calls (events (main p env))) \<le> 1"
    by (simp add: main_events list_calls_append script_list_calls r split: sum.splits)
  with r show ?thesis
    by (simp add: main_exit stderr_main)
qed

text \<open>
  C5, witness: a missing credential refused by the constructor, a connection error in
  the remote call, a response with no \<^verbatim>\<open>model_data\<close> and an entry that is no
  record each end the process with status 1.
\<close>

theorem failure_reaches_process_boundary_witness:
  "raised (script (mock needs_key (Inr two_models)) Map.empty) = Some (SdkError ''no api key'') \<and>
   exit_status (main (mock needs_key (Inr two_models)) Map.empty) = 1 \<and>
   raised (script (mock needs_key (Inl (SdkError ''Connection error.''))) key_set) =
     Some (SdkError ''Connection error.'') \<and>
   exit_status (main (mock needs_key (Inl (SdkError ''Connection error.''))) key_set) = 1 \<and>
   raised (script (mock needs_key (Inr PyNone)) key_set) = Some (AttributeError ''model_data'') \<and>
   exit_status (main (mock needs_key (Inr PyNone)) key_set) = 1 \<and>
   raised (script (mock needs_key (Inr bad_first_page)) key_set) = Some TypeError \<and>
   exit_status (main (mock needs_key (Inr bad_first_page)) key_set) = 1"
proof -
  have "step_fails (mock needs_key (Inr two_models)) Map.empty (SdkError ''no api key'')"
    by (rule step_fails.credential) (simp add: mock_defs)
  note a = failure_reaches_process_boundary [OF this]
  have "step_fails (mock needs_key (Inl (SdkError ''Connection error.''))) key_set
      (SdkError ''Connection error.'')"
    by (rule step_fails.remote_call [where c = "()"]) (simp_all add: mock_defs)
  note b = failure_reaches_process_boundary [OF this]
  have "step_fails (mock needs_key (Inr PyNone)) key_set (AttributeError ''model_data'')"
    by (rule step_fails.no_attribute [where c = "()" and page = PyNone])
      (simp_all add: mock_defs)
  note c = failure_reaches_process_boundary [OF this]
  have "step_fails (mock needs_key (Inr bad_first_page)) key_set TypeError"
    by (rule step_fails.bad_record [where good = "[]" and bad = PyNone
          and rest = "[PyDict [(''id'', PyStr ''claude-3-opus'')]]"])
      (simp_all add: mock_defs reaches_loop_def)
  note d = failure_reaches_process_boundary [OF this]
  from a b c d show ?thesis by blast
qed

subsection \<open>Calls and inputs\<close>

text \<open>
  C6, counterexample to the claim as stated: when the constructor raises, the run ends
  before the list operation is called at all.
\<close>

theorem no_list_call_without_client:
  "list_calls (events (main (mock needs_key (Inr two_models)) Map.empty)) = []"
  by (simp add: mock_defs run_defs)

text \<open>
  C6 (as amended). On every run the list operation is called at most once: exactly once,
  with no arguments, when the client was constructed, whether the call then succeeds or
  raises (no retry); and not at all when the constructor raised.
\<close>

theorem one_list_call_after_construction:
  "list_calls (events (main p env)) =
     (case Anthropic p (getenv env ''ANTHROPIC_API_KEY'') of Inl e \<Rightarrow> [] | Inr c \<Rightarrow> [[]])"
  by (simp add: main_events list_calls_append script_list_calls split: option.splits)

text \<open>C6, witness: one call without arguments, both when it succeeds and when it raises.\<close>

theorem one_list_call_after_construction_witness:
  "list_calls (events (main (mock needs_key (Inr two_models)) key_set)) = [[]] \<and>
   list_calls (events (main (mock needs_key (Inl (SdkError ''Connection error.''))) key_set)) =
     [[]]"
  using one_list_call_after_construction [of "mock needs_key (Inr two_models)" key_set]
    one_list_call_after_construction
      [of "mock needs_key (Inl (SdkError ''Connection error.''))" key_set]
  by (simp add: mock_def needs_key_def key_set_def getenv_def)




text \<open>
  C8. Two responses whose records agree, position by position, on what
  \<^verbatim>\<open>m['id']\<close> yields give the same standard output (and the same exit status),
  whatever else the records hold.
\<close>

theorem other_attributes_ignored:
  assumes attr1: "getattr page1 ''model_data'' = Inr (PyList ms1)"
    and attr2: "getattr page2 ''model_data'' = Inr (PyList ms2)"
    and ids: "map (\<lambda>m. subscript m ''id'') ms1 = map (\<lambda>m. subscript m ''id'') ms2"
  shows "stdout (main (p\<lparr>models_list := \<lambda>client kwargs. Inr page1\<rparr>) env) =
         stdout (main (p\<lparr>models_list := \<lambda>client kwargs. Inr page2\<rparr>) env) \<and>
         exit_status (main (p\<lparr>models_list := \<lambda>client kwargs. Inr page1\<rparr>) env) =
         exit_status (main (p\<lparr>models_list := \<lambda>client kwargs. Inr page2\<rparr>) env)"
proof -
  let ?p1 = "p\<lparr>models_list := \<lambda>client kwargs. Inr page1\<rparr>"
  let ?p2 = "p\<lparr>models_list := \<lambda>client kwargs. Inr page2\<rparr>"
  have "trace (script ?p1 env) = trace (script ?p2 env) \<and>
        raised (script ?p1 env) = raised (script ?p2 env)"
  proof (cases "Anthropic p (getenv env ''ANTHROPIC_API_KEY'')")
    case (Inl e)
    then show ?thesis
      by (simp add: script_ctor_fails [of ?p1 env e] script_ctor_fails [of ?p2 env e])
  next
    case (Inr c)
    let ?r0 = "\<lparr>trace = [GetEnv ''ANTHROPIC_API_KEY'',
        NewClient (getenv env ''ANTHROPIC_API_KEY''), ListModels []],
      visited = [], raised = None\<rparr>"
    have "script ?p1 env = for_loop ?p1 env ms1 ?r0"
      using Inr attr1
      by (intro script_listed [where c = c and page = page1 and data = "PyList ms1"]) simp_all
    then have s1: "script ?p1 env = for_loop p env ms1 ?r0"
      by (simp only: for_loop_update)
    have "script ?p2 env = for_loop ?p2 env ms2 ?r0"
      using Inr attr2
      by (intro script_listed [where c = c and page = page2 and data = "PyList ms2"]) simp_all
    then have s2: "script ?p2 env = for_loop p env ms2 ?r0"
      by (simp only: for_loop_update)
    from for_loop_same_ids [OF ids, of ?r0 ?r0 p env] show ?thesis
      by (simp add: s1 s2)
  qed
  then show ?thesis
    by (simp add: stdout_main main_exit)
qed

text \<open>C8, witness: the two models with and without their other fields.\<close>

theorem other_attributes_ignored_witness:
  "two_models \<noteq> two_models_bare \<and>
   stdout (main (mock needs_key (Inr PyNone)\<lparr>models_list := \<lambda>client kwargs. Inr two_models\<rparr>)
     key_set) =
   stdout (main (mock needs_key (Inr PyNone)\<lparr>models_list := \<lambda>client kwargs. Inr two_models_bare\<rparr>)
     key_set)"
proof -
  let ?ms1 = "[PyDict [(''id'', PyStr ''claude-3-opus''), (''display_name'', PyStr ''Claude 3 Opus'')],
               PyDict [(''type'', PyStr ''model''), (''id'', PyStr ''claude-3-sonnet'')]]"
  let ?ms2 = "[PyDict [(''id'', PyStr ''claude-3-opus'')],
               PyDict [(''id'', PyStr ''claude-3-sonnet''), (''created_at'', PyInt 0)]]"
  have attr1: "getattr two_models ''model_data'' = Inr (PyList ?ms1)"
    by (simp add: two_models_def)
  have attr2: "getattr two_models_bare ''model_data'' = Inr (PyList ?ms2)"
    by (simp add: two_models_bare_def)
  have ids: "map (\<lambda>m. subscript m ''id'') ?ms1 = map (\<lambda>m. subscript m ''id'') ?ms2"
    by simp
  have differ: "two_models \<noteq> two_models_bare"
    by (simp add: two_models_def two_models_bare_def)
  from other_attributes_ignored [OF attr1 attr2 ids, of "mock needs_key (Inr PyNone)" key_set]
    differ
  show ?thesis by blast
qed

subsection \<open>Effects and termination\<close>

text \<open>
  C9, counterexample to the claim as stated: on a run that fails, standard error is
  written too: it receives the interpreter's report of the uncaught exception.
\<close>

theorem failure_writes_to_stderr:
  "stderr (main (mock needs_key (Inl (SdkError ''Connection error.''))) key_set) =
     ''Traceback (most recent call last):''"
  by (simp add: mock_defs run_defs)

text \<open>
  C9 (as amended). The statements of the script do nothing but read the credential
  variable, construct the client, call the list operation without arguments and write to
  standard output. The process adds one thing, and only on a failing run: after the last
  action of the script, the report of the uncaught exception on standard error. A run
  with exit status 0 leaves standard error empty.
\<close>

theorem effects_of_a_run:
  "list_all by_script (trace (script p env)) \<and>
   events (main p env) =
     trace (script p env) @
       (case raised (script p env) of
          None \<Rightarrow> []
        | Some e \<Rightarrow> [Write Stderr (excepthook p env e)]) \<and>
   (exit_status (main p env) = 0 \<longrightarrow>
      stderr (main p env) = [] \<and> list_all by_script (events (main p env)))"
proof -
  have "stderr (main p env) = [] \<and> list_all by_script (events (main p env))"
    if "exit_status (main p env) = 0"
  proof -
    from that have "raised (script p env) = None"
      by (simp add: main_exit split: option.splits)
    then show ?thesis
      by (simp add: stderr_main main_events script_by_script)
  qed
  then show ?thesis
    using script_by_script [of p env] main_events [of p env] by blast
qed

text \<open>C9, witness: the two-model run ends with status 0 and nothing on standard error.\<close>

theorem effects_of_a_run_witness:
  "exit_status (main (mock needs_key (Inr two_models)) key_set) = 0 \<and>
   stderr (main (mock needs_key (Inr two_models)) key_set) = [] \<and>
   list_all by_script (events (main (mock needs_key (Inr two_models)) key_set))"
proof -
  have ok: "exit_status (main (mock needs_key (Inr two_models)) key_set) = 0"
    by (simp add: mock_defs run_defs)
  from effects_of_a_run [of "mock needs_key (Inr two_models)" key_set] ok
  show ?thesis by blast
qed




end
